theory Spec2Isabelle
  imports Complex_Main "HOL-Library.Log_Nat"
begin

section \<open>Fourhills: rendering of stat blocks (stats.py)\<close>

text \<open>
  The development embeds \<^verbatim>\<open>StatBlock.calculate_ability_modifier\<close>,
  \<^verbatim>\<open>StatBlock.summary_info\<close> and \<^verbatim>\<open>StatBlock.battle_info\<close> of
  \<^verbatim>\<open>src/fourhills/stats.py\<close>.

  Conventions of the embedding:
  \<^item> a Python \<^verbatim>\<open>str\<close> is a \<^typ>\<open>string\<close>; the text is ASCII, one character per
    \<^typ>\<open>char\<close>;
  \<^item> a Python \<^verbatim>\<open>int\<close> is an \<^typ>\<open>int\<close>;
  \<^item> a \<^verbatim>\<open>Dict\<close> that is iterated with \<^verbatim>\<open>items()\<close> is an association list in
    insertion order; the attribute mapping of an attack, which is only indexed and tested
    with \<^verbatim>\<open>in\<close>, is a map;
  \<^item> \<^verbatim>\<open>Optional[T]\<close> is \<^typ>\<open>'a option\<close>, and the truth value Python gives such a
    field in \<^verbatim>\<open>if self.field:\<close> is written out;
  \<^item> every \<^verbatim>\<open>raise\<close>, failing key lookup and failing division is a value
    \<open>Inl e\<close> of the result type.
\<close>

subsection \<open>Errors\<close>

datatype error =
    ValueError string
  | ZeroDivisionError
  | OverflowError
  | KeyError string

subsection \<open>Python string operations\<close>

definition py_upper :: "char \<Rightarrow> char" where
  "py_upper c = (let n = (of_char c :: nat) in if 97 \<le> n \<and> n \<le> 122 then char_of (n - 32) else c)"

definition py_lower :: "char \<Rightarrow> char" where
  "py_lower c = (let n = (of_char c :: nat) in if 65 \<le> n \<and> n \<le> 90 then char_of (n + 32) else c)"

text \<open>\<^verbatim>\<open>str.capitalize()\<close>: the first character in upper case, the others in lower case.\<close>

fun capitalize :: "string \<Rightarrow> string" where
  "capitalize [] = []"
| "capitalize (c # cs) = py_upper c # map py_lower cs"

definition digit_char :: "nat \<Rightarrow> char" where
  "digit_char n = ''0123456789'' ! n"

function str_nat :: "nat \<Rightarrow> string" where
  "str_nat n = (if n < 10 then [digit_char n] else str_nat (n div 10) @ [digit_char (n mod 10)])"
  by pat_completeness auto
termination
  by (relation "measure id") auto

declare str_nat.simps [simp del]

text \<open>The format specification \<^verbatim>\<open>{n:d}\<close>, which is also \<^verbatim>\<open>str(n)\<close> for an int.\<close>

definition format_d :: "int \<Rightarrow> string" where
  "format_d n = (if n < 0 then CHR ''-'' # str_nat (nat (- n)) else str_nat (nat n))"

text \<open>The format specification \<^verbatim>\<open>{n:+d}\<close>: the sign is always written.\<close>

definition format_plus_d :: "int \<Rightarrow> string" where
  "format_plus_d n = (if n < 0 then CHR ''-'' # str_nat (nat (- n)) else CHR ''+'' # str_nat (nat n))"

text \<open>\<^verbatim>\<open>c * n\<close> for a one-character string \<open>c\<close>: empty when \<open>n\<close> is not positive.\<close>

definition str_times :: "char \<Rightarrow> int \<Rightarrow> string" where
  "str_times c n = replicate (nat n) c"

subsection \<open>Python true division of integers\<close>

text \<open>
  \<^verbatim>\<open>a / b\<close> on two ints is the quotient rounded to the nearest IEEE 754 double (53
  significant bits, ties to the even significand); it raises \<^verbatim>\<open>ZeroDivisionError\<close> for
  \<open>b = 0\<close> and \<^verbatim>\<open>OverflowError\<close> when the rounded quotient does not fit a double. The
  double is represented by the rational number it denotes.
\<close>

definition pow2 :: "int \<Rightarrow> rat" where
  "pow2 k = (if 0 \<le> k then 2 ^ nat k else 1 / 2 ^ nat (- k))"

definition round_half_even :: "rat \<Rightarrow> int" where
  "round_half_even x =
     (let f = \<lfloor>x\<rfloor>; d = x - of_int f
      in if d < 1 / 2 then f else if 1 / 2 < d then f + 1 else if even f then f else f + 1)"

text \<open>The binary exponent \<open>e\<close> of a positive quotient \<open>a / b\<close>: \<open>2 ^ e \<le> a / b < 2 ^ (e + 1)\<close>.\<close>

definition ilog2 :: "int \<Rightarrow> int \<Rightarrow> int" where
  "ilog2 a b = (let e = bitlen a - bitlen b in if of_int b * pow2 e \<le> of_int a then e else e - 1)"

definition py_truediv :: "int \<Rightarrow> int \<Rightarrow> error + rat" where
  "py_truediv a b =
     (if b = 0 then Inl ZeroDivisionError
      else if a = 0 then Inr 0
      else
        let x = \<bar>of_int a / of_int b\<bar>;
            e = ilog2 \<bar>a\<bar> \<bar>b\<bar>;
            u = pow2 (max (e - 52) (- 1074));
            y = of_int (round_half_even (x / u)) * u
        in if pow2 1024 \<le> y then Inl OverflowError
           else Inr (if (a < 0) \<noteq> (b < 0) then - y else y))"

definition math_floor :: "rat \<Rightarrow> int" where
  "math_floor x = \<lfloor>x\<rfloor>"

subsection \<open>The formatters of text_utils\<close>

text \<open>
  \<^verbatim>\<open>stats.py\<close> imports \<^verbatim>\<open>centre_pad\<close>, \<^verbatim>\<open>format_indented_paragraph\<close> and
  \<^verbatim>\<open>format_list\<close> from \<^verbatim>\<open>fourhills.text_utils\<close>, which is not among the sources.
  The three are modelled from sections 4.1 to 4.3 of the specification. The width of the
  hanging indent is fixed there but not given, so it is the parameter \<open>indent\<close> of every
  function that wraps text, and every result below holds for each value of it.
\<close>

text \<open>
  Modelled from the spec: \<^verbatim>\<open>centre_pad(text, width)\<close> of text_utils. The text is centred
  with spaces; when the padding is odd the extra space goes to the right; a text longer
  than the field is returned unpadded.
\<close>

definition centre_pad :: "string \<Rightarrow> int \<Rightarrow> string" where
  "centre_pad text width =
     (let pad = width - int (length text)
      in if pad \<le> 0 then text
         else replicate (nat (pad div 2)) CHR '' '' @ text @ replicate (nat (pad - pad div 2)) CHR '' '')"

text \<open>The ASCII characters that \<^verbatim>\<open>str.split()\<close> treats as whitespace.\<close>

definition is_space :: "char \<Rightarrow> bool" where
  "is_space c = (let n = (of_char c :: nat) in n = 32 \<or> (9 \<le> n \<and> n \<le> 13) \<or> (28 \<le> n \<and> n \<le> 31))"

fun split_ws :: "string \<Rightarrow> string \<Rightarrow> string list" where
  "split_ws cur [] = (if cur = [] then [] else [cur])"
| "split_ws cur (c # cs) =
     (if is_space c then (if cur = [] then split_ws [] cs else cur # split_ws [] cs)
      else split_ws (cur @ [c]) cs)"

text \<open>
  The greedy line filling of section 4.2: the token joins the current line while
  \<open>current_length + 1 + token_length \<le> width\<close>; otherwise the line is emitted as it is and
  the token starts the next line behind the hanging indent.
\<close>

fun wrap_tokens :: "nat \<Rightarrow> int \<Rightarrow> string \<Rightarrow> string list \<Rightarrow> string list" where
  "wrap_tokens indent width cur [] = [cur]"
| "wrap_tokens indent width cur (t # ts) =
     (if int (length cur) + 1 + int (length t) \<le> width
      then wrap_tokens indent width (cur @ '' '' @ t) ts
      else cur # wrap_tokens indent width (replicate indent CHR '' '' @ t) ts)"

text \<open>
  Modelled from the spec: \<^verbatim>\<open>format_indented_paragraph(text, width)\<close> of text_utils.
  Tokens are split on whitespace and wrapped greedily; lines are not padded; a text without
  tokens gives no line.
\<close>

definition format_indented_paragraph :: "nat \<Rightarrow> string \<Rightarrow> int \<Rightarrow> string list" where
  "format_indented_paragraph indent text width =
     (case split_ws [] text of [] \<Rightarrow> [] | t # ts \<Rightarrow> wrap_tokens indent width t ts)"

fun join_with :: "string \<Rightarrow> string list \<Rightarrow> string" where
  "join_with sep [] = []"
| "join_with sep [x] = x"
| "join_with sep (x # y # ys) = x @ sep @ join_with sep (y # ys)"

text \<open>
  Modelled from the spec: \<^verbatim>\<open>format_list(title, items, width)\<close> of text_utils. The items
  are joined with \<^verbatim>\<open>", "\<close>, prefixed with the title and a colon, and wrapped as a paragraph.
\<close>

definition format_list :: "nat \<Rightarrow> string \<Rightarrow> string list \<Rightarrow> int \<Rightarrow> string list" where
  "format_list indent title items width =
     format_indented_paragraph indent (title @ '': '' @ join_with '', '' items) width"

subsection \<open>The StatBlock dataclass\<close>

text \<open>
  The field \<^verbatim>\<open>size\<close> is \<open>size_sb\<close> here. The field \<^verbatim>\<open>challenge\<close> is a Python float
  that \<^verbatim>\<open>battle_info\<close> only interpolates into an f-string; the record holds the text
  that the interpolation gives.
\<close>

record statblock =
  name :: string
  size_sb :: string
  creature_type :: string
  alignment :: string
  ac :: string
  hp :: string
  speed :: string
  ability :: "(string \<times> int) list"
  challenge :: string
  passive_perception :: int
  saving_throws :: "(string \<times> string) list option"
  skills :: "(string \<times> string) list option"
  damage_vulnerabilities :: "string list option"
  damage_resistances :: "string list option"
  damage_immunities :: "string list option"
  condition_immunities :: "string list option"
  special_senses :: "(string \<times> string) list option"
  languages :: "string list option"
  special_traits :: "(string \<times> string) list option"
  melee_attacks :: "(string \<times> (string \<rightharpoonup> string)) list option"
  ranged_attacks :: "(string \<times> (string \<rightharpoonup> string)) list option"
  multiattack :: "string option"
  other_actions :: "(string \<times> string) list option"
  description :: "string option"

text \<open>
  \<^verbatim>\<open>if x: ... else: ...\<close> on an optional list, dict or str: \<^verbatim>\<open>None\<close> and the empty
  collection are both false.
\<close>

definition when_truthy :: "'a list option \<Rightarrow> ('a list \<Rightarrow> 'b) \<Rightarrow> 'b \<Rightarrow> 'b" where
  "when_truthy x f d = (case x of None \<Rightarrow> d | Some v \<Rightarrow> if v = [] then d else f v)"

text \<open>\<^verbatim>\<open>details[key]\<close>: a missing key raises \<^verbatim>\<open>KeyError\<close>.\<close>

definition getitem :: "(string \<rightharpoonup> string) \<Rightarrow> string \<Rightarrow> error + string" where
  "getitem details k = (case details k of None \<Rightarrow> Inl (KeyError k) | Some v \<Rightarrow> Inr v)"

subsection \<open>calculate_ability_modifier\<close>

definition calculate_ability_modifier :: "int \<Rightarrow> error + int" where
  "calculate_ability_modifier ability_score =
     (case py_truediv (ability_score - 10) 2 of
        Inl e \<Rightarrow> Inl e
      | Inr q \<Rightarrow> Inr (math_floor q))"

subsection \<open>summary_info\<close>

text \<open>The local \<^verbatim>\<open>header_text\<close>: \<^verbatim>\<open>if quantity:\<close> is false for \<^verbatim>\<open>None\<close> and for 0.\<close>

definition header_text :: "statblock \<Rightarrow> int option \<Rightarrow> string" where
  "header_text self quantity =
     (case quantity of
        None \<Rightarrow> name self
      | Some q \<Rightarrow> if q \<noteq> 0 then name self @ '' x'' @ format_d q else name self)"

definition summary_info :: "statblock \<Rightarrow> int \<Rightarrow> int option \<Rightarrow> string list" where
  "summary_info self line_width quantity =
     (let lines = [];
          lines = lines @ [centre_pad (header_text self quantity) line_width];
          lines = lines @ [str_times CHR ''='' line_width];
          lines = lines @ [capitalize (size_sb self) @ '' '' @ creature_type self @ '', '' @ alignment self]
      in lines)"

subsection \<open>battle_info\<close>

text \<open>
  \<^verbatim>\<open>math.floor(line_width / len(self.ability))\<close>. The division raises
  \<^verbatim>\<open>ZeroDivisionError\<close> for an empty ability dict. The width has just been used to
  build the separator \<^verbatim>\<open>"-" * line_width\<close>, so it is far below \<open>2 ^ 53\<close>, where the
  floor of the double quotient is the floor of the exact quotient; the quotient is taken
  exactly.
\<close>

definition floor_truediv_len :: "int \<Rightarrow> 'a list \<Rightarrow> error + int" where
  "floor_truediv_len line_width xs =
     (if length xs = 0 then Inl ZeroDivisionError else Inr (line_width div int (length xs)))"

text \<open>The text of one ability-score cell, \<^verbatim>\<open>f"{score:d}({modifier:+d})"\<close>.\<close>

definition score_text :: "int \<Rightarrow> int \<Rightarrow> string" where
  "score_text score modifier = format_d score @ ''('' @ format_plus_d modifier @ '')''"

text \<open>
  The loop over \<^verbatim>\<open>self.ability.items()\<close>, on the two lists it appends to. An error of
  \<^verbatim>\<open>calculate_ability_modifier\<close> leaves the loop.
\<close>

fun ability_loop ::
  "int \<Rightarrow> string list \<Rightarrow> string list \<Rightarrow> (string \<times> int) list \<Rightarrow> error + string list \<times> string list"
where
  "ability_loop ability_width ability_name_strings ability_score_strings [] =
     Inr (ability_name_strings, ability_score_strings)"
| "ability_loop ability_width ability_name_strings ability_score_strings ((ability_name, score) # rest) =
     (let ability_name_strings = ability_name_strings @ [centre_pad ability_name ability_width]
      in (case calculate_ability_modifier score of
            Inl e \<Rightarrow> Inl e
          | Inr modifier \<Rightarrow>
              ability_loop ability_width ability_name_strings
                (ability_score_strings @ [centre_pad (score_text score modifier) ability_width]) rest))"

text \<open>The paragraph of a melee attack; each \<^verbatim>\<open>details[...]\<close> may raise.\<close>

definition melee_text :: "string \<Rightarrow> (string \<rightharpoonup> string) \<Rightarrow> error + string" where
  "melee_text attack_name details =
     (case getitem details ''hit'' of Inl e \<Rightarrow> Inl e | Inr hit \<Rightarrow>
     (case getitem details ''reach'' of Inl e \<Rightarrow> Inl e | Inr reach \<Rightarrow>
     (case getitem details ''targets'' of Inl e \<Rightarrow> Inl e | Inr targets \<Rightarrow>
     (case getitem details ''damage'' of Inl e \<Rightarrow> Inl e | Inr damage \<Rightarrow>
        let details_formatted =
              capitalize attack_name @ '': melee weapon attack, '' @
              hit @ '' to hit, reach '' @ reach @ '', '' @
              targets @ ''. '' @
              ''Hit damage: '' @ damage @ ''.''
        in (case details ''info'' of
              None \<Rightarrow> Inr details_formatted
            | Some info \<Rightarrow> Inr (details_formatted @ '' '' @ info @ ''.''))))))"

text \<open>The paragraph of a ranged attack; the source writes no space after the range's comma.\<close>

definition ranged_text :: "string \<Rightarrow> (string \<rightharpoonup> string) \<Rightarrow> error + string" where
  "ranged_text attack_name details =
     (case getitem details ''hit'' of Inl e \<Rightarrow> Inl e | Inr hit \<Rightarrow>
     (case getitem details ''range'' of Inl e \<Rightarrow> Inl e | Inr range_v \<Rightarrow>
     (case getitem details ''targets'' of Inl e \<Rightarrow> Inl e | Inr targets \<Rightarrow>
     (case getitem details ''damage'' of Inl e \<Rightarrow> Inl e | Inr damage \<Rightarrow>
        let details_formatted =
              capitalize attack_name @ '': ranged weapon attack, '' @
              hit @ '' to hit, range '' @ range_v @ '','' @
              targets @ ''. '' @
              ''Hit damage: '' @ damage @ ''.''
        in (case details ''info'' of
              None \<Rightarrow> Inr details_formatted
            | Some info \<Rightarrow> Inr (details_formatted @ '' '' @ info @ ''.''))))))"

text \<open>
  The loop over the items of an attack dict: each paragraph extends \<open>lines\<close>; a failing key
  lookup leaves the loop with the error.
\<close>

fun attack_loop ::
  "(string \<Rightarrow> (string \<rightharpoonup> string) \<Rightarrow> error + string) \<Rightarrow> nat \<Rightarrow> int \<Rightarrow> string list \<Rightarrow>
   (string \<times> (string \<rightharpoonup> string)) list \<Rightarrow> error + string list"
where
  "attack_loop text_of indent line_width lines [] = Inr lines"
| "attack_loop text_of indent line_width lines ((attack_name, details) # rest) =
     (case text_of attack_name details of
        Inl e \<Rightarrow> Inl e
      | Inr details_formatted \<Rightarrow>
          attack_loop text_of indent line_width
            (lines @ format_indented_paragraph indent details_formatted line_width) rest)"

text \<open>The loops over special traits and other actions: \<^verbatim>\<open>f"{name.capitalize()}: {text}"\<close>.\<close>

fun named_paragraphs :: "nat \<Rightarrow> int \<Rightarrow> string list \<Rightarrow> (string \<times> string) list \<Rightarrow> string list" where
  "named_paragraphs indent line_width lines [] = lines"
| "named_paragraphs indent line_width lines ((entry_name, text) # rest) =
     named_paragraphs indent line_width
       (lines @ format_indented_paragraph indent (capitalize entry_name @ '': '' @ text) line_width) rest"

text \<open>The list comprehension \<^verbatim>\<open>[f"{k} {v}" for k, v in d.items()]\<close>.\<close>

definition key_value_texts :: "(string \<times> string) list \<Rightarrow> string list" where
  "key_value_texts d = map (\<lambda>(k, v). k @ '' '' @ v) d"

definition battle_info :: "nat \<Rightarrow> statblock \<Rightarrow> int \<Rightarrow> error + string list" where
  "battle_info indent self line_width =
     (if line_width < 56
      then Inl (ValueError ''Width must be at least 56 for there to be room for all scores.'')
      else
        let lines = [];
            lines = lines @ [''AC '' @ ac self];
            lines = lines @ [''HP '' @ hp self];
            lines = lines @ [''Speed '' @ speed self];
            lines = lines @ [str_times CHR ''-'' line_width]
        in
        (case floor_truediv_len line_width (ability self) of Inl e \<Rightarrow> Inl e | Inr ability_width \<Rightarrow>
        (case ability_loop ability_width [] [] (ability self) of Inl e \<Rightarrow> Inl e
         | Inr (ability_name_strings, ability_score_strings) \<Rightarrow>
        let lines = lines @ [centre_pad (concat ability_name_strings) line_width];
            lines = lines @ [centre_pad (concat ability_score_strings) line_width];
            lines = lines @ [str_times CHR ''-'' line_width];
            lines = when_truthy (saving_throws self)
              (\<lambda>d. lines @ format_list indent ''Saving throws'' (key_value_texts d) line_width) lines;
            lines = when_truthy (skills self)
              (\<lambda>d. lines @ format_list indent ''Skills'' (key_value_texts d) line_width) lines;
            lines = when_truthy (damage_vulnerabilities self)
              (\<lambda>l. lines @ format_list indent ''Damage vulnerabilities'' l line_width) lines;
            lines = when_truthy (damage_resistances self)
              (\<lambda>l. lines @ format_list indent ''Damage resistances'' l line_width) lines;
            lines = when_truthy (damage_immunities self)
              (\<lambda>l. lines @ format_list indent ''Damage immunities'' l line_width) lines;
            lines = when_truthy (condition_immunities self)
              (\<lambda>l. lines @ format_list indent ''Condition immunities'' l line_width) lines;
            lines = lines @ [''Passive perception: '' @ format_d (passive_perception self)];
            lines = when_truthy (special_senses self)
              (\<lambda>d. lines @ format_list indent ''Senses'' (key_value_texts d) line_width) lines;
            lines = lines @ format_list indent ''Languages''
              (when_truthy (languages self) (\<lambda>l. l) [''none'']) line_width;
            lines = lines @ [''Challenge: '' @ challenge self];
            lines = lines @ [[]];
            lines = lines @ [centre_pad ''Special traits'' line_width];
            lines = lines @ [str_times CHR ''-'' line_width];
            lines = when_truthy (special_traits self)
              (\<lambda>d. named_paragraphs indent line_width lines d) lines;
            lines = lines @ [[]];
            lines = lines @ [centre_pad ''Actions'' line_width];
            lines = lines @ [str_times CHR ''-'' line_width]
        in
        (case when_truthy (melee_attacks self)
                (\<lambda>d. attack_loop melee_text indent line_width lines d) (Inr lines)
         of Inl e \<Rightarrow> Inl e | Inr lines \<Rightarrow>
        (case when_truthy (ranged_attacks self)
                (\<lambda>d. attack_loop ranged_text indent line_width lines d) (Inr lines)
         of Inl e \<Rightarrow> Inl e | Inr lines \<Rightarrow>
        let lines = when_truthy (multiattack self)
              (\<lambda>m. lines @ format_indented_paragraph indent (''Multiattack: '' @ m) line_width) lines;
            lines = when_truthy (other_actions self)
              (\<lambda>d. named_paragraphs indent line_width lines d) lines;
            lines = lines @ [[]];
            lines = when_truthy (description self)
              (\<lambda>t. lines @ format_indented_paragraph indent t line_width) lines
        in Inr lines)))))"

subsection \<open>The calls as steps on the object\<close>



subsection \<open>The sections of the battle layout\<close>

text \<open>
  The layout that the specification states for \<^verbatim>\<open>battle_info\<close>, written as the
  concatenation of its sections in their order. Each section is built from the same
  formatters as the source; the results below compare the source's accumulation of
  \<^verbatim>\<open>lines\<close> with it.
\<close>

definition dict_lines :: "nat \<Rightarrow> string \<Rightarrow> (string \<times> string) list option \<Rightarrow> int \<Rightarrow> string list" where
  "dict_lines indent title d line_width =
     when_truthy d (\<lambda>d. format_list indent title (key_value_texts d) line_width) []"

definition list_lines :: "nat \<Rightarrow> string \<Rightarrow> string list option \<Rightarrow> int \<Rightarrow> string list" where
  "list_lines indent title l line_width =
     when_truthy l (\<lambda>l. format_list indent title l line_width) []"

definition languages_lines :: "nat \<Rightarrow> string list option \<Rightarrow> int \<Rightarrow> string list" where
  "languages_lines indent l line_width =
     format_list indent ''Languages'' (when_truthy l (\<lambda>l. l) [''none'']) line_width"

definition paragraphs_of :: "nat \<Rightarrow> (string \<times> string) list option \<Rightarrow> int \<Rightarrow> string list" where
  "paragraphs_of indent d line_width = when_truthy d (named_paragraphs indent line_width []) []"

definition attack_paragraphs ::
  "(string \<Rightarrow> (string \<rightharpoonup> string) \<Rightarrow> error + string) \<Rightarrow> nat \<Rightarrow>
   (string \<times> (string \<rightharpoonup> string)) list option \<Rightarrow> int \<Rightarrow> error + string list" where
  "attack_paragraphs text_of indent d line_width =
     when_truthy d (attack_loop text_of indent line_width []) (Inr [])"

definition multiattack_lines :: "nat \<Rightarrow> string option \<Rightarrow> int \<Rightarrow> string list" where
  "multiattack_lines indent m line_width =
     when_truthy m (\<lambda>m. format_indented_paragraph indent (''Multiattack: '' @ m) line_width) []"

definition description_lines :: "nat \<Rightarrow> string option \<Rightarrow> int \<Rightarrow> string list" where
  "description_lines indent t line_width =
     when_truthy t (\<lambda>t. format_indented_paragraph indent t line_width) []"

definition ability_rows :: "statblock \<Rightarrow> int \<Rightarrow> error + string \<times> string" where
  "ability_rows self line_width =
     (case floor_truediv_len line_width (ability self) of
        Inl e \<Rightarrow> Inl e
      | Inr ability_width \<Rightarrow>
          (case ability_loop ability_width [] [] (ability self) of
             Inl e \<Rightarrow> Inl e
           | Inr (names, scores) \<Rightarrow>
               Inr (centre_pad (concat names) line_width, centre_pad (concat scores) line_width)))"

definition sections_in_order ::
  "nat \<Rightarrow> statblock \<Rightarrow> int \<Rightarrow> string \<Rightarrow> string \<Rightarrow> string list \<Rightarrow> string list \<Rightarrow> string list" where
  "sections_in_order indent self line_width name_row score_row melee ranged =
     [''AC '' @ ac self, ''HP '' @ hp self, ''Speed '' @ speed self,
      str_times CHR ''-'' line_width, name_row, score_row, str_times CHR ''-'' line_width]
     @ dict_lines indent ''Saving throws'' (saving_throws self) line_width
     @ dict_lines indent ''Skills'' (skills self) line_width
     @ list_lines indent ''Damage vulnerabilities'' (damage_vulnerabilities self) line_width
     @ list_lines indent ''Damage resistances'' (damage_resistances self) line_width
     @ list_lines indent ''Damage immunities'' (damage_immunities self) line_width
     @ list_lines indent ''Condition immunities'' (condition_immunities self) line_width
     @ [''Passive perception: '' @ format_d (passive_perception self)]
     @ dict_lines indent ''Senses'' (special_senses self) line_width
     @ languages_lines indent (languages self) line_width
     @ [''Challenge: '' @ challenge self, [],
        centre_pad ''Special traits'' line_width, str_times CHR ''-'' line_width]
     @ paragraphs_of indent (special_traits self) line_width
     @ [[], centre_pad ''Actions'' line_width, str_times CHR ''-'' line_width]
     @ melee @ ranged
     @ multiattack_lines indent (multiattack self) line_width
     @ paragraphs_of indent (other_actions self) line_width
     @ [[]]
     @ description_lines indent (description self) line_width"

subsection \<open>When a rendering returns\<close>





text \<open>Every ability score has a modifier: the true division does not overflow.\<close>

definition modifiers_computable :: "(string \<times> int) list \<Rightarrow> bool" where
  "modifiers_computable xs =
     list_all (\<lambda>(a, s). case calculate_ability_modifier s of Inl e \<Rightarrow> False | Inr m \<Rightarrow> True) xs"

text \<open>A text fits a field when it is not longer than the field.\<close>

definition fits :: "string \<Rightarrow> int \<Rightarrow> bool" where
  "fits text width = (int (length text) \<le> width)"

subsection \<open>Example stat blocks\<close>

definition bite :: "string \<rightharpoonup> string" where
  "bite = [''hit'' \<mapsto> ''+5'', ''reach'' \<mapsto> ''5 ft'', ''targets'' \<mapsto> ''one target'',
           ''damage'' \<mapsto> ''7 (1d8 + 3) piercing'']"

definition sling :: "string \<rightharpoonup> string" where
  "sling = [''hit'' \<mapsto> ''+4'', ''range'' \<mapsto> ''30/120 ft'', ''targets'' \<mapsto> ''one target'',
            ''damage'' \<mapsto> ''4 (1d4 + 2) bludgeoning'', ''info'' \<mapsto> ''The stone shatters'']"

definition goblin :: statblock where
  "goblin = \<lparr>
     name = ''Goblin'', size_sb = ''small'', creature_type = ''humanoid'',
     alignment = ''neutral evil'', ac = ''15'', hp = ''7 (2d6)'', speed = ''30 ft'',
     ability = [(''STR'', 10), (''DEX'', 14), (''CON'', 12), (''INT'', 8), (''WIS'', 10), (''CHA'', 16)],
     challenge = ''0.25'', passive_perception = 9,
     saving_throws = None, skills = None,
     damage_vulnerabilities = None, damage_resistances = None,
     damage_immunities = None, condition_immunities = None,
     special_senses = None, languages = None, special_traits = None,
     melee_attacks = None, ranged_attacks = None, multiattack = None,
     other_actions = None, description = None \<rparr>"

definition warlord :: statblock where
  "warlord = goblin \<lparr>
     name := ''Warlord'',
     saving_throws := Some [(''DEX'', ''+4'')],
     skills := Some [(''Stealth'', ''+6'')],
     damage_resistances := Some [''fire'', ''cold''],
     special_senses := Some [(''darkvision'', ''60 ft'')],
     languages := Some [''Common''],
     special_traits := Some [(''nimble escape'', ''Can disengage or hide as a bonus action.'')],
     melee_attacks := Some [(''bite'', bite)],
     ranged_attacks := Some [(''sling'', sling)],
     multiattack := Some ''Two bite attacks.'',
     other_actions := Some [(''rally'', ''Allies gain advantage.'')],
     description := Some ''A goblin that leads.'' \<rparr>"

definition warlord_lines_56 :: "string list" where
  "warlord_lines_56 =
     [''AC 15'', ''HP 7 (2d6)'', ''Speed 30 ft'',
      ''--------------------------------------------------------'',
      ''    STR      DEX      CON      INT      WIS      CHA    '',
      ''  10(+0)   14(+2)   12(+1)    8(-1)   10(+0)   16(+3)   '',
      ''--------------------------------------------------------'',
      ''Saving throws: DEX +4'', ''Skills: Stealth +6'',
      ''Damage resistances: fire, cold'', ''Passive perception: 9'',
      ''Senses: darkvision 60 ft'', ''Languages: Common'',
      ''Challenge: 0.25'', [],
      ''                     Special traits                     '',
      ''--------------------------------------------------------'',
      ''Nimble escape: Can disengage or hide as a bonus action.'', [],
      ''                        Actions                         '',
      ''--------------------------------------------------------'',
      ''Bite: melee weapon attack, +5 to hit, reach 5 ft, one'',
      ''  target. Hit damage: 7 (1d8 + 3) piercing.'',
      ''Sling: ranged weapon attack, +4 to hit, range 30/120'',
      ''  ft,one target. Hit damage: 4 (1d4 + 2) bludgeoning.'',
      ''  The stone shatters.'', ''Multiattack: Two bite attacks.'',
      ''Rally: Allies gain advantage.'', [], ''A goblin that leads.'']"

definition goblin_lines_80 :: "string list" where
  "goblin_lines_80 =
     [''AC 15'', ''HP 7 (2d6)'', ''Speed 30 ft'',
      ''--------------------------------------------------------------------------------'',
      ''      STR          DEX          CON          INT          WIS          CHA      '',
      ''    10(+0)       14(+2)       12(+1)        8(-1)       10(+0)       16(+3)     '',
      ''--------------------------------------------------------------------------------'',
      ''Passive perception: 9'', ''Languages: none'', ''Challenge: 0.25'',
      [],
      ''                                 Special traits                                 '',
      ''--------------------------------------------------------------------------------'',
      [],
      ''                                    Actions                                     '',
      ''--------------------------------------------------------------------------------'',
      []]"

text \<open>A goblin whose bite lacks every attribute, and one without ability scores.\<close>

definition toothless :: statblock where
  "toothless = goblin \<lparr> melee_attacks := Some [(''bite'', Map.empty)] \<rparr>"



section \<open>Properties\<close>

subsection \<open>The true division by 2: exact below \<open>2 ^ 53\<close>, overflow from \<open>2 ^ 1025\<close>\<close>

lemma round_half_even_of_int: "round_half_even (of_int z) = z"
  by (simp add: round_half_even_def)

lemma bitlen_two: "bitlen 2 = 2"
  by code_simp

lemma py_truediv_2_exact:
  assumes "\<bar>n\<bar> < 2 ^ 53"
  shows "py_truediv n 2 = Inr (of_int n / 2)"
proof (cases "n = 0")
  case True
  then show ?thesis by (simp add: py_truediv_def)
next
  case False
  define a where "a = \<bar>n\<bar>"
  define e where "e = ilog2 a 2"
  have a_pos: "0 < a" using False by (simp add: a_def)
  have "bitlen a \<le> 53"
    using assms by (simp add: bitlen_le_iff_power a_def)
  moreover have "1 \<le> bitlen a"
    using a_pos bitlen_eq_zero_iff [of a] bitlen_nonneg [of a] by linarith
  ultimately have e_bounds: "- 2 \<le> e" "e \<le> 51"
    by (auto simp: e_def ilog2_def Let_def bitlen_two)
  define k where "k = nat (51 - e)"
  have k: "nat (52 - e) = Suc k" using e_bounds by (simp add: k_def)
  have E: "ilog2 \<bar>n\<bar> \<bar>2\<bar> = e" by (simp add: e_def a_def)
  have U: "pow2 (max (ilog2 \<bar>n\<bar> \<bar>2\<bar> - 52) (- 1074)) = 1 / 2 ^ Suc k"
    unfolding E using e_bounds k by (simp add: pow2_def max_def)
  have X: "\<bar>(of_int n :: rat) / of_int 2\<bar> = of_int a / 2"
    by (simp add: a_def)
  have Q: "\<bar>(of_int n :: rat) / of_int 2\<bar> / pow2 (max (ilog2 \<bar>n\<bar> \<bar>2\<bar> - 52) (- 1074))
             = of_int (a * 2 ^ k)"
    unfolding U X by simp
  have R: "round_half_even
             (\<bar>(of_int n :: rat) / of_int 2\<bar> / pow2 (max (ilog2 \<bar>n\<bar> \<bar>2\<bar> - 52) (- 1074)))
             = a * 2 ^ k"
    unfolding Q by (rule round_half_even_of_int)
  have Y: "(of_int (round_half_even
             (\<bar>(of_int n :: rat) / of_int 2\<bar> / pow2 (max (ilog2 \<bar>n\<bar> \<bar>2\<bar> - 52) (- 1074)))) :: rat)
             * pow2 (max (ilog2 \<bar>n\<bar> \<bar>2\<bar> - 52) (- 1074)) = of_int a / 2"
    by (subst R, subst U, simp)
  have small: "\<not> pow2 1024 \<le> (of_int a / 2 :: rat)"
  proof -
    have "(of_int a :: rat) < 2 ^ 53"
      using assms unfolding a_def by (metis of_int_less_numeral_power_cancel_iff)
    also have "\<dots> \<le> 2 ^ 1024" by (rule power_increasing) simp_all
    finally show ?thesis by (simp add: pow2_def)
  qed
  have sgn: "(if n < 0 then - (of_int a / 2) else of_int a / 2 :: rat) = of_int n / 2"
    by (simp add: a_def)
  show ?thesis
    unfolding py_truediv_def Let_def Y
    using False small sgn by simp
qed


lemma floor_half: "\<lfloor>(of_int n :: rat) / 2\<rfloor> = n div 2"
  using floor_divide_of_int_eq [of n 2, where ?'a = rat] by simp

lemma calculate_ability_modifier_exact:
  assumes "\<bar>score - 10\<bar> < 2 ^ 53"
  shows "calculate_ability_modifier score = Inr ((score - 10) div 2)"
  unfolding calculate_ability_modifier_def py_truediv_2_exact [OF assms]
  by (simp only: sum.case math_floor_def floor_half)

lemma calculate_ability_modifier_code [code]:
  "calculate_ability_modifier score =
     (if \<bar>score - 10\<bar> < 9007199254740992 then Inr ((score - 10) div 2)
      else (case py_truediv (score - 10) 2 of Inl e \<Rightarrow> Inl e | Inr q \<Rightarrow> Inr (math_floor q)))"
  using calculate_ability_modifier_exact [of score]
  by (simp add: calculate_ability_modifier_def)

text \<open>From \<open>2 ^ 1025\<close> on the quotient by 2 does not fit a double.\<close>

lemma round_half_even_ge_floor: "\<lfloor>x\<rfloor> \<le> round_half_even x"
  by (simp add: round_half_even_def Let_def)

lemma py_truediv_2_overflow:
  assumes "2 ^ 1025 \<le> \<bar>n\<bar>"
  shows "py_truediv n 2 = Inl OverflowError"
proof -
  define a where "a = \<bar>n\<bar>"
  define e where "e = bitlen a - 2"
  define k where "k = nat (e - 52)"
  have a: "2 ^ 1025 \<le> a" using assms by (simp add: a_def)
  then have a_pos: "0 < a" by (smt (verit) zero_less_power)
  have n0: "n \<noteq> 0" using a_pos by (simp add: a_def)
  have "1026 \<le> bitlen a"
    using a by (simp add: bitlen_ge_iff_power)
  then have e: "1024 \<le> e" by (simp add: e_def)
  have ne: "nat e = k + 52" using e by (simp add: k_def)
  have "nat (bitlen a - 1) = Suc (nat e)" using e by (simp add: e_def)
  with bitlen_bounds [OF a_pos] have low: "2 * 2 ^ nat e \<le> a" by simp
  then have lowr: "(2 :: rat) * 2 ^ nat e \<le> of_int a"
    by (metis of_int_le_iff of_int_mult of_int_numeral of_int_power)
  have E: "ilog2 \<bar>n\<bar> \<bar>2\<bar> = e"
    using lowr e by (simp add: ilog2_def Let_def bitlen_two pow2_def a_def [symmetric] e_def [symmetric])
  have U: "pow2 (max (e - 52) (- 1074)) = 2 ^ k"
    using e by (simp add: pow2_def max_def k_def)
  have X: "\<bar>(of_int n :: rat) / of_int 2\<bar> = of_int a / 2"
    by (simp add: a_def)
  define z where "z = (of_int a / 2 :: rat) / 2 ^ k"
  have "(2 :: rat) ^ 52 * 2 ^ k \<le> of_int a / 2"
    using lowr by (simp add: ne power_add mult.commute)
  then have "(2 :: rat) ^ 52 \<le> z"
    unfolding z_def by (simp add: pos_le_divide_eq)
  then have "(of_int (2 ^ 52) :: rat) \<le> z" by simp
  then have "2 ^ 52 \<le> \<lfloor>z\<rfloor>" by (simp only: le_floor_iff)
  with round_half_even_ge_floor [of z] have "2 ^ 52 \<le> round_half_even z" by linarith
  then have "(2 :: rat) ^ 52 \<le> of_int (round_half_even z)"
    by (metis of_int_le_iff of_int_numeral of_int_power)
  then have m: "(2 :: rat) ^ 52 * 2 ^ k \<le> of_int (round_half_even z) * 2 ^ k"
    by (simp add: mult_right_mono)
  have g: "(2 :: rat) ^ 1024 \<le> 2 ^ (k + 52)"
    using e ne by (intro power_increasing) simp_all
  have "pow2 1024 = (2 :: rat) ^ 1024" by (simp add: pow2_def)
  also note g
  also have "(2 :: rat) ^ (k + 52) = 2 ^ 52 * 2 ^ k" by (simp only: power_add mult.commute)
  also note m
  finally have big: "pow2 1024 \<le> of_int (round_half_even z) * 2 ^ k" .
  show ?thesis
    unfolding py_truediv_def Let_def E U X
    using n0 big by (simp add: z_def)
qed

lemma calculate_ability_modifier_overflow:
  assumes "2 ^ 1025 \<le> \<bar>score - 10\<bar>"
  shows "calculate_ability_modifier score = Inl OverflowError"
  unfolding calculate_ability_modifier_def py_truediv_2_overflow [OF assms]
  by simp

subsection \<open>Loops and accumulators\<close>

lemma when_truthy_append: "when_truthy x (\<lambda>d. ls @ g d) ls = ls @ when_truthy x g []"
  by (simp add: when_truthy_def split: option.splits)

lemma named_paragraphs_acc:
  "named_paragraphs i w ls d = ls @ named_paragraphs i w [] d"
proof (induction d arbitrary: ls)
  case Nil
  show ?case by simp
next
  case (Cons p d)
  obtain n t where p: "p = (n, t)" by (cases p)
  show ?case
    by (simp add: p Cons.IH [of "ls @ _"] Cons.IH [of "format_indented_paragraph _ _ _"])
qed

lemma attack_loop_acc:
  "attack_loop f i w ls d =
     (case attack_loop f i w [] d of Inl e \<Rightarrow> Inl e | Inr ps \<Rightarrow> Inr (ls @ ps))"
proof (induction d arbitrary: ls)
  case Nil
  show ?case by simp
next
  case (Cons p d)
  obtain n t where p: "p = (n, t)" by (cases p)
  show ?case
    by (simp add: p Cons.IH [of "ls @ _"] Cons.IH [of "format_indented_paragraph _ _ _"]
        split: sum.splits)
qed

lemma when_truthy_named:
  "when_truthy x (\<lambda>d. named_paragraphs i w ls d) ls = ls @ paragraphs_of i x w"
  using named_paragraphs_acc [of i w ls]
  by (simp add: paragraphs_of_def when_truthy_def split: option.splits)

lemma when_truthy_attack:
  "when_truthy x (\<lambda>d. attack_loop f i w ls d) (Inr ls) =
     (case attack_paragraphs f i x w of Inl e \<Rightarrow> Inl e | Inr ps \<Rightarrow> Inr (ls @ ps))"
  using attack_loop_acc [of f i w ls]
  by (simp add: attack_paragraphs_def when_truthy_def split: option.splits)

lemma battle_info_layout:
  assumes "56 \<le> w"
  shows "battle_info i sb w =
     (case ability_rows sb w of Inl e \<Rightarrow> Inl e | Inr (nr, sr) \<Rightarrow>
     (case attack_paragraphs melee_text i (melee_attacks sb) w of Inl e \<Rightarrow> Inl e | Inr ms \<Rightarrow>
     (case attack_paragraphs ranged_text i (ranged_attacks sb) w of Inl e \<Rightarrow> Inl e | Inr rs \<Rightarrow>
        Inr (sections_in_order i sb w nr sr ms rs))))"
  unfolding battle_info_def
  apply (simp only: Let_def when_truthy_append when_truthy_named when_truthy_attack)
  using assms
  apply (simp add: ability_rows_def sections_in_order_def dict_lines_def list_lines_def
    languages_lines_def multiattack_lines_def description_lines_def
    split: sum.splits prod.splits)
  done

subsection \<open>The ability rows\<close>


lemma ability_loop_eq:
  assumes "map (\<lambda>(a, s). calculate_ability_modifier s) xs = map Inr ms"
  shows "ability_loop aw ns ss xs =
           Inr (ns @ map (\<lambda>(a, s). centre_pad a aw) xs,
                ss @ map (\<lambda>((a, s), m). centre_pad (score_text s m) aw) (zip xs ms))"
  using assms
proof (induction xs arbitrary: ns ss ms)
  case Nil
  then show ?case by simp
next
  case (Cons x xs)
  obtain a s where x: "x = (a, s)" by (cases x)
  from Cons.prems obtain m ms' where ms: "ms = m # ms'" by (cases ms) auto
  from Cons.prems have m: "calculate_ability_modifier s = Inr m"
    and rest: "map (\<lambda>(a, s). calculate_ability_modifier s) xs = map Inr ms'"
    by (simp_all add: x ms)
  show ?case
    by (simp add: x ms m Cons.IH [OF rest])
qed

lemma ability_loop_Inr:
  "ability_loop aw ns ss xs = Inr r \<Longrightarrow>
     \<exists>ms. map (\<lambda>(a, s). calculate_ability_modifier s) xs = map Inr ms"
proof (induction xs arbitrary: ns ss)
  case Nil
  then show ?case by simp
next
  case (Cons x xs)
  obtain a s where x: "x = (a, s)" by (cases x)
  from Cons.prems obtain m where m: "calculate_ability_modifier s = Inr m"
    by (cases "calculate_ability_modifier s") (simp_all add: x)
  with Cons.prems obtain ms where "map (\<lambda>(a, s). calculate_ability_modifier s) xs = map Inr ms"
    using Cons.IH by (auto simp: x)
  then have "map (\<lambda>(a, s). calculate_ability_modifier s) (x # xs) = map Inr (m # ms)"
    by (simp add: x m)
  then show ?case by blast
qed


lemma modifiers_computable_iff:
  "modifiers_computable xs \<longleftrightarrow> (\<exists>ms. map (\<lambda>(a, s). calculate_ability_modifier s) xs = map Inr ms)"
proof (induction xs)
  case Nil
  show ?case by (simp add: modifiers_computable_def)
next
  case (Cons x xs)
  obtain a s where x: "x = (a, s)" by (cases x)
  show ?case
  proof
    assume c: "modifiers_computable (x # xs)"
    then obtain m where m: "calculate_ability_modifier s = Inr m"
      by (cases "calculate_ability_modifier s") (simp_all add: modifiers_computable_def x)
    from c have "modifiers_computable xs" by (simp add: modifiers_computable_def)
    with Cons.IH obtain ms where "map (\<lambda>(a, s). calculate_ability_modifier s) xs = map Inr ms"
      by blast
    then have "map (\<lambda>(a, s). calculate_ability_modifier s) (x # xs) = map Inr (m # ms)"
      by (simp add: x m)
    then show "\<exists>ms. map (\<lambda>(a, s). calculate_ability_modifier s) (x # xs) = map Inr ms" by blast
  next
    assume "\<exists>ms. map (\<lambda>(a, s). calculate_ability_modifier s) (x # xs) = map Inr ms"
    then obtain ms where ms: "map (\<lambda>(a, s). calculate_ability_modifier s) (x # xs) = map Inr ms" ..
    then obtain m ms' where "ms = m # ms'" by (cases ms) auto
    with ms have "calculate_ability_modifier s = Inr m"
      and "map (\<lambda>(a, s). calculate_ability_modifier s) xs = map Inr ms'"
      by (simp_all add: x)
    with Cons.IH show "modifiers_computable (x # xs)"
      by (auto simp: modifiers_computable_def x)
  qed
qed

lemma ability_rows_eq:
  assumes "ability sb \<noteq> []"
    and "map (\<lambda>(a, s). calculate_ability_modifier s) (ability sb) = map Inr ms"
  shows "ability_rows sb w =
     Inr (centre_pad (concat (map (\<lambda>(a, s). centre_pad a (w div int (length (ability sb))))
                                (ability sb))) w,
          centre_pad (concat (map (\<lambda>((a, s), m).
                                     centre_pad (score_text s m) (w div int (length (ability sb))))
                                (zip (ability sb) ms))) w)"
  using assms(1)
  by (simp add: ability_rows_def floor_truediv_len_def ability_loop_eq [OF assms(2)])

lemma ability_rows_Inr:
  assumes "ability_rows sb w = Inr r"
  shows "ability sb \<noteq> [] \<and> modifiers_computable (ability sb)"
  using assms ability_loop_Inr [of "w div int (length (ability sb))" "[]" "[]" "ability sb"]
  by (auto simp: ability_rows_def floor_truediv_len_def modifiers_computable_iff
      split: sum.splits if_splits)



subsection \<open>The attack paragraphs and the errors of battle_info\<close>









lemma battle_info_narrow:
  "w < 56 \<Longrightarrow>
     battle_info i sb w =
       Inl (ValueError ''Width must be at least 56 for there to be room for all scores.'')"
  by (simp add: battle_info_def)



subsection \<open>The tokens of the Languages section\<close>

lemma battle_info_Inr:
  assumes "battle_info i sb w = Inr lines"
  shows "56 \<le> w \<and>
    (\<exists>nr sr ms rs. ability_rows sb w = Inr (nr, sr) \<and>
       attack_paragraphs melee_text i (melee_attacks sb) w = Inr ms \<and>
       attack_paragraphs ranged_text i (ranged_attacks sb) w = Inr rs \<and>
       lines = sections_in_order i sb w nr sr ms rs)"
proof -
  have w: "56 \<le> w"
    using assms battle_info_narrow [of w i sb] by (cases "w < 56") simp_all
  show ?thesis
    using assms w unfolding battle_info_layout [OF w]
    by (auto split: sum.splits prod.splits)
qed

lemma no_space_in_title: "list_all (\<lambda>c. \<not> is_space c) ''Languages:''"
  by code_simp

lemma space_is_space: "is_space CHR '' ''"
  by code_simp

lemma split_ws_token:
  "list_all (\<lambda>c. \<not> is_space c) t \<Longrightarrow> split_ws cur (t @ rest) = split_ws (cur @ t) rest"
  by (induction t arbitrary: cur) simp_all

lemma split_ws_languages:
  "split_ws [] (''Languages'' @ '': '' @ rest) = ''Languages:'' # split_ws [] rest"
proof -
  have "split_ws [] (''Languages:'' @ (CHR '' '' # rest)) = split_ws ''Languages:'' (CHR '' '' # rest)"
    using split_ws_token [OF no_space_in_title, of "[]"] by simp
  also have "\<dots> = ''Languages:'' # split_ws [] rest"
    using space_is_space by simp
  finally show ?thesis by simp
qed

lemma wrap_tokens_first:
  "\<exists>rest more. wrap_tokens i w cur ts = (cur @ rest) # more"
proof (induction ts arbitrary: cur)
  case Nil
  show ?case by simp
next
  case (Cons t ts)
  show ?case
  proof (cases "int (length cur) + 1 + int (length t) \<le> w")
    case True
    from Cons.IH [of "cur @ '' '' @ t"] obtain rest more
      where "wrap_tokens i w (cur @ '' '' @ t) ts = ((cur @ '' '' @ t) @ rest) # more" by blast
    then have "wrap_tokens i w cur (t # ts) = (cur @ ('' '' @ t @ rest)) # more"
      using True by simp
    then show ?thesis by blast
  next
    case False
    then have "wrap_tokens i w cur (t # ts) = (cur @ []) # wrap_tokens i w (replicate i CHR '' '' @ t) ts"
      by simp
    then show ?thesis by blast
  qed
qed

lemma languages_lines_first:
  "\<exists>rest more. languages_lines i l w = (''Languages:'' @ rest) # more"
  unfolding languages_lines_def format_list_def format_indented_paragraph_def split_ws_languages
  by (simp only: list.case) (rule wrap_tokens_first)

lemma tokens_none: "split_ws [] ''none'' = [''none'']"
  by code_simp

lemma tokens_common: "split_ws [] ''Common'' = [''Common'']"
  by code_simp

lemma languages_lines_none:
  "15 \<le> w \<Longrightarrow> format_list i ''Languages'' [''none''] w = [''Languages: none'']"
  unfolding format_list_def format_indented_paragraph_def join_with.simps split_ws_languages
    tokens_none
  by simp

lemma languages_lines_common:
  "17 \<le> w \<Longrightarrow> format_list i ''Languages'' [''Common''] w = [''Languages: Common'']"
  unfolding format_list_def format_indented_paragraph_def join_with.simps split_ws_languages
    tokens_common
  by simp

subsection \<open>Lengths of padded text\<close>

lemma length_centre_pad: "int (length (centre_pad t w)) = max w (int (length t))"
  by (auto simp: centre_pad_def Let_def)

lemma length_centre_pad_fits: "fits t w \<Longrightarrow> int (length (centre_pad t w)) = w"
  by (simp add: length_centre_pad fits_def)

lemma length_str_times: "0 \<le> w \<Longrightarrow> int (length (str_times c w)) = w"
  by (simp add: str_times_def)

lemma centre_pad_centred:
  assumes "fits t f"
  shows "\<exists>l r. centre_pad t f = replicate l CHR '' '' @ t @ replicate r CHR '' '' \<and>
               int (l + length t + r) = f \<and> (r = l \<or> r = Suc l)"
proof (cases "f - int (length t) \<le> 0")
  case True
  with assms have "centre_pad t f = replicate 0 CHR '' '' @ t @ replicate 0 CHR '' ''"
    and "int (0 + length t + 0) = f"
    by (simp_all add: centre_pad_def fits_def)
  then show ?thesis by blast
next
  case False
  define p where "p = f - int (length t)"
  define l where "l = nat (p div 2)"
  define r where "r = nat (p - p div 2)"
  from False have p: "0 < p" by (simp add: p_def)
  have "centre_pad t f = replicate l CHR '' '' @ t @ replicate r CHR '' ''"
    using False by (simp add: centre_pad_def Let_def l_def r_def p_def)
  moreover have "int (l + length t + r) = f"
    using p by (simp add: l_def r_def p_def)
  moreover have "r = l \<or> r = Suc l"
    using p unfolding l_def r_def by (cases "even p") (auto elim!: evenE oddE)
  ultimately show ?thesis by blast
qed

lemma length_concat_padded:
  assumes "\<forall>x \<in> set xs. fits (g x) aw"
  shows "int (length (concat (map (\<lambda>x. centre_pad (g x) aw) xs))) = int (length xs) * aw"
  using assms
proof (induction xs)
  case Nil
  show ?case by simp
next
  case (Cons x xs)
  then have "int (length (centre_pad (g x) aw)) = aw"
    by (simp add: length_centre_pad_fits)
  with Cons show ?case by (simp add: algebra_simps)
qed

lemma floor_div_len_le: "0 \<le> w \<Longrightarrow> int n * (w div int n) \<le> w"
proof (cases "n = 0")
  case True
  assume "0 \<le> w"
  with True show ?thesis by simp
next
  case False
  assume "0 \<le> w"
  have "int n * (w div int n) = w - w mod int n"
    by (simp add: minus_mod_eq_mult_div)
  moreover have "0 \<le> w mod int n" using False by simp
  ultimately show ?thesis by linarith
qed

lemma battle_info_rows:
  assumes "battle_info i sb w = Inr lines"
  shows "56 \<le> w \<and> ability sb \<noteq> [] \<and>
    (\<exists>ms. map (\<lambda>(a, s). calculate_ability_modifier s) (ability sb) = map Inr ms \<and>
       lines ! 3 = str_times CHR ''-'' w \<and>
       lines ! 4 = centre_pad (concat (map (\<lambda>(a, s). centre_pad a (w div int (length (ability sb))))
                                        (ability sb))) w \<and>
       lines ! 5 = centre_pad (concat (map (\<lambda>((a, s), m).
                                         centre_pad (score_text s m) (w div int (length (ability sb))))
                                        (zip (ability sb) ms))) w \<and>
       lines ! 6 = str_times CHR ''-'' w)"
proof -
  from battle_info_Inr [OF assms] obtain nr sr ms' rs
    where w: "56 \<le> w" and rows: "ability_rows sb w = Inr (nr, sr)"
      and lines: "lines = sections_in_order i sb w nr sr ms' rs" by blast
  from ability_rows_Inr [OF rows] have ne: "ability sb \<noteq> []"
    and "modifiers_computable (ability sb)" by simp_all
  then obtain ms where ms: "map (\<lambda>(a, s). calculate_ability_modifier s) (ability sb) = map Inr ms"
    by (auto simp: modifiers_computable_iff)
  from ability_rows_eq [OF ne ms, of w] rows
  have "nr = centre_pad (concat (map (\<lambda>(a, s). centre_pad a (w div int (length (ability sb))))
                                        (ability sb))) w"
    and "sr = centre_pad (concat (map (\<lambda>((a, s), m).
                                         centre_pad (score_text s m) (w div int (length (ability sb))))
                                        (zip (ability sb) ms))) w"
    by simp_all
  moreover have "lines ! 3 = str_times CHR ''-'' w" "lines ! 4 = nr" "lines ! 5 = sr"
    "lines ! 6 = str_times CHR ''-'' w"
    by (simp_all add: lines sections_in_order_def)
  ultimately show ?thesis using w ne ms by blast
qed

subsection \<open>Evaluated renderings\<close>

lemma warlord_renders: "battle_info 2 warlord 56 = Inr warlord_lines_56"
  by code_simp

lemma goblin_renders: "battle_info 2 goblin 80 = Inr goblin_lines_80"
  by code_simp

subsection \<open>Purity of the renderings\<close>


subsection \<open>The order of the sections\<close>



subsection \<open>The width error\<close>




subsection \<open>The required keys of an attack\<close>




subsection \<open>The Languages line\<close>

text \<open>
  Claim C6, amended. For every StatBlock and width at which \<^verbatim>\<open>battle_info\<close> returns
  its lines (the width is then at least 56), the output contains the lines of the
  Languages section, which is never empty and starts with \<open>Languages:\<close>; when the
  languages field is \<^verbatim>\<open>None\<close> the line reads \<open>Languages: none\<close>, and when it is
  \<^verbatim>\<open>["Common"]\<close> the line reads \<open>Languages: Common\<close>.
\<close>

theorem languages_line_rendered:
  assumes "battle_info i sb w = Inr lines"
  shows "56 \<le> w \<and>
         set (languages_lines i (languages sb) w) \<subseteq> set lines \<and>
         (\<exists>rest more. languages_lines i (languages sb) w = (''Languages:'' @ rest) # more) \<and>
         (languages sb = None \<longrightarrow>
            languages_lines i (languages sb) w = [''Languages: none''] \<and>
            ''Languages: none'' \<in> set lines) \<and>
         (languages sb = Some [''Common''] \<longrightarrow>
            languages_lines i (languages sb) w = [''Languages: Common''] \<and>
            ''Languages: Common'' \<in> set lines)"
proof -
  from battle_info_Inr [OF assms] obtain nr sr ms rs
    where w: "56 \<le> w" and lines: "lines = sections_in_order i sb w nr sr ms rs" by blast
  have sub: "set (languages_lines i (languages sb) w) \<subseteq> set lines"
    by (auto simp: lines sections_in_order_def)
  have none: "languages_lines i None w = [''Languages: none'']"
    using w languages_lines_none [of w i] by (simp add: languages_lines_def when_truthy_def)
  have common: "languages_lines i (Some [''Common'']) w = [''Languages: Common'']"
    using w languages_lines_common [of w i] by (simp add: languages_lines_def when_truthy_def)
  show ?thesis
    using w sub none common languages_lines_first [of i "languages sb" w] by auto
qed

theorem languages_line_rendered_witness:
  "battle_info 2 goblin 80 = Inr goblin_lines_80 \<and> languages goblin = None \<and>
   ''Languages: none'' \<in> set goblin_lines_80 \<and>
   battle_info 2 warlord 56 = Inr warlord_lines_56 \<and> languages warlord = Some [''Common''] \<and>
   ''Languages: Common'' \<in> set warlord_lines_56"
proof -
  have a: "languages goblin = None" by code_simp
  have b: "languages warlord = Some [''Common'']" by code_simp
  show ?thesis
    using a b goblin_renders warlord_renders
      languages_line_rendered [OF goblin_renders] languages_line_rendered [OF warlord_renders]
    by simp
qed

text \<open>
  The claim as stated fails for a StatBlock on which the rendering raises: with a melee
  attack that lacks its keys, no line at all is returned at width 56.
\<close>

theorem languages_line_counterexample:
  "(56::int) \<le> 56 \<and> languages toothless = None \<and>
   battle_info 2 toothless 56 = Inl (KeyError ''hit'')"
  by code_simp

subsection \<open>The ability modifier\<close>




subsection \<open>The ability cells\<close>

text \<open>
  Claim C5. When \<^verbatim>\<open>battle_info\<close> returns the lines of a StatBlock with six ability
  scores, the width of a cell is the floor of the width divided by 6 (13 at width 80); the
  row of names is the concatenation of the names, each centred in a field of that width,
  and the row of scores is the concatenation of the texts \<open>score(modifier)\<close>, each centred
  in a field of that width; both rows are then centred in the width. A text that fits its
  field is centred with as many spaces on the left as on the right, or one more on the
  right. When every text fits its field the joined row has six times the cell width, which
  is at most the width.
\<close>

theorem ability_cells_centred:
  assumes "length (ability sb) = 6" and "battle_info i sb w = Inr lines"
  shows "floor_truediv_len w (ability sb) = Inr (w div 6) \<and>
    (w = 80 \<longrightarrow> w div 6 = 13) \<and>
    6 * (w div 6) \<le> w \<and>
    (\<exists>ms. map (\<lambda>(a, s). calculate_ability_modifier s) (ability sb) = map Inr ms \<and>
       lines ! 4 = centre_pad (concat (map (\<lambda>(a, s). centre_pad a (w div 6)) (ability sb))) w \<and>
       lines ! 5 = centre_pad (concat (map (\<lambda>((a, s), m). centre_pad (score_text s m) (w div 6))
                                        (zip (ability sb) ms))) w \<and>
       ((\<forall>(a, s) \<in> set (ability sb). fits a (w div 6)) \<longrightarrow>
          int (length (concat (map (\<lambda>(a, s). centre_pad a (w div 6)) (ability sb)))) = 6 * (w div 6)) \<and>
       ((\<forall>((a, s), m) \<in> set (zip (ability sb) ms). fits (score_text s m) (w div 6)) \<longrightarrow>
          int (length (concat (map (\<lambda>((a, s), m). centre_pad (score_text s m) (w div 6))
                                 (zip (ability sb) ms)))) = 6 * (w div 6))) \<and>
    (fits t (w div 6) \<longrightarrow>
       (\<exists>l r. centre_pad t (w div 6) = replicate l CHR '' '' @ t @ replicate r CHR '' '' \<and>
              int (l + length t + r) = w div 6 \<and> (r = l \<or> r = Suc l)))"
proof -
  from battle_info_rows [OF assms(2)] obtain ms
    where w: "56 \<le> w"
      and ms: "map (\<lambda>(a, s). calculate_ability_modifier s) (ability sb) = map Inr ms"
      and l4: "lines ! 4 = centre_pad (concat (map (\<lambda>(a, s). centre_pad a (w div 6)) (ability sb))) w"
      and l5: "lines ! 5 = centre_pad (concat (map (\<lambda>((a, s), m). centre_pad (score_text s m) (w div 6))
                                        (zip (ability sb) ms))) w"
    by (auto simp: assms(1))
  from ms have "length ms = length (ability sb)"
    by (metis length_map)
  then have lz: "length (zip (ability sb) ms) = 6" by (simp add: assms(1))
  have names: "int (length (concat (map (\<lambda>(a, s). centre_pad a (w div 6)) (ability sb)))) = 6 * (w div 6)"
    if "\<forall>(a, s) \<in> set (ability sb). fits a (w div 6)"
    using length_concat_padded [of "ability sb" fst "w div 6"] that
    by (simp add: assms(1) split_def)
  have scores: "int (length (concat (map (\<lambda>((a, s), m). centre_pad (score_text s m) (w div 6))
                                 (zip (ability sb) ms)))) = 6 * (w div 6)"
    if "\<forall>((a, s), m) \<in> set (zip (ability sb) ms). fits (score_text s m) (w div 6)"
    using length_concat_padded [of "zip (ability sb) ms" "\<lambda>x. score_text (snd (fst x)) (snd x)" "w div 6"]
      that lz
    by (simp add: split_def)
  have le: "6 * (w div 6) \<le> w" using floor_div_len_le [of w 6] w by simp
  have aw: "floor_truediv_len w (ability sb) = Inr (w div 6)"
    by (simp add: floor_truediv_len_def assms(1))
  show ?thesis
    using aw le ms l4 l5 names scores centre_pad_centred [of t "w div 6"] by auto
qed

theorem ability_cells_centred_witness:
  "length (ability goblin) = 6 \<and> battle_info 2 goblin 80 = Inr goblin_lines_80 \<and>
   floor_truediv_len 80 (ability goblin) = Inr 13 \<and>
   fits ''STR'' (80 div 6) \<and>
   (\<exists>l r. centre_pad ''STR'' (80 div 6) = replicate l CHR '' '' @ ''STR'' @ replicate r CHR '' '' \<and>
          int (l + length ''STR'' + r) = 80 div 6 \<and> (r = l \<or> r = Suc l))"
proof -
  have a: "length (ability goblin) = 6" by code_simp
  have f: "fits ''STR'' (80 div 6)" by code_simp
  note t = ability_cells_centred [OF a goblin_renders, of "''STR''"]
  from t have b: "floor_truediv_len 80 (ability goblin) = Inr (80 div 6)" by blast
  from t f have c: "\<exists>l r. centre_pad ''STR'' (80 div 6) = replicate l CHR '' '' @ ''STR'' @ replicate r CHR '' '' \<and>
          int (l + length ''STR'' + r) = 80 div 6 \<and> (r = l \<or> r = Suc l)" by blast
  from b have b': "floor_truediv_len 80 (ability goblin) = Inr 13" by simp
  show ?thesis using a goblin_renders b' f c by blast
qed

subsection \<open>The width of the lines\<close>

text \<open>
  Claim C1, amended. In the lines that \<^verbatim>\<open>battle_info\<close> returns (the width is then at
  least 56), the separators and the centred headers \<open>Special traits\<close> and \<open>Actions\<close> have
  exactly the length \<open>line_width\<close>, and so has each of the two ability rows when every
  text of the row fits its cell. In the lines of \<^verbatim>\<open>summary_info\<close> the rule has exactly
  the length \<open>line_width\<close> for every width that is not negative, and so has the header when
  the header text fits the width. The other lines are left-justified and are not padded.
\<close>

theorem padded_lines_have_line_width:
  assumes "battle_info i sb w = Inr lines"
  shows "56 \<le> w \<and>
    lines ! 3 = str_times CHR ''-'' w \<and> int (length (lines ! 3)) = w \<and>
    lines ! 6 = str_times CHR ''-'' w \<and> int (length (lines ! 6)) = w \<and>
    centre_pad ''Special traits'' w \<in> set lines \<and>
    int (length (centre_pad ''Special traits'' w)) = w \<and>
    centre_pad ''Actions'' w \<in> set lines \<and>
    int (length (centre_pad ''Actions'' w)) = w \<and>
    (\<exists>ms. map (\<lambda>(a, s). calculate_ability_modifier s) (ability sb) = map Inr ms \<and>
       ((\<forall>(a, s) \<in> set (ability sb). fits a (w div int (length (ability sb)))) \<longrightarrow>
          int (length (lines ! 4)) = w) \<and>
       ((\<forall>((a, s), m) \<in> set (zip (ability sb) ms).
            fits (score_text s m) (w div int (length (ability sb)))) \<longrightarrow>
          int (length (lines ! 5)) = w)) \<and>
    (0 \<le> v \<longrightarrow> int (length (summary_info sb v q ! 1)) = v) \<and>
    (fits (header_text sb q) v \<longrightarrow> int (length (summary_info sb v q ! 0)) = v)"
proof -
  define n where "n = length (ability sb)"
  define aw where "aw = w div int n"
  from battle_info_rows [OF assms] obtain ms
    where w: "56 \<le> w"
      and ms: "map (\<lambda>(a, s). calculate_ability_modifier s) (ability sb) = map Inr ms"
      and l3: "lines ! 3 = str_times CHR ''-'' w"
      and l4: "lines ! 4 = centre_pad (concat (map (\<lambda>(a, s). centre_pad a aw) (ability sb))) w"
      and l5: "lines ! 5 = centre_pad (concat (map (\<lambda>((a, s), m). centre_pad (score_text s m) aw)
                                        (zip (ability sb) ms))) w"
      and l6: "lines ! 6 = str_times CHR ''-'' w"
    unfolding aw_def n_def by blast
  from battle_info_Inr [OF assms] obtain nr sr ps rs
    where lines: "lines = sections_in_order i sb w nr sr ps rs" by blast
  have sep: "int (length (str_times CHR ''-'' w)) = w"
    using w by (simp add: length_str_times)
  have st: "centre_pad ''Special traits'' w \<in> set lines"
    and ac: "centre_pad ''Actions'' w \<in> set lines"
    by (simp_all add: lines sections_in_order_def)
  have stl: "int (length (centre_pad ''Special traits'' w)) = w"
    and acl: "int (length (centre_pad ''Actions'' w)) = w"
    using w by (simp_all add: length_centre_pad)
  have le: "int n * aw \<le> w"
    unfolding aw_def using floor_div_len_le [of w n] w by simp
  from ms have "length ms = n" unfolding n_def by (metis length_map)
  then have lz: "length (zip (ability sb) ms) = n" by (simp add: n_def)
  have names: "int (length (lines ! 4)) = w"
    if "\<forall>(a, s) \<in> set (ability sb). fits a aw"
  proof -
    have "int (length (concat (map (\<lambda>(a, s). centre_pad a aw) (ability sb)))) = int n * aw"
      using length_concat_padded [of "ability sb" fst aw] that
      by (simp add: n_def split_def)
    with le have "fits (concat (map (\<lambda>(a, s). centre_pad a aw) (ability sb))) w"
      by (simp add: fits_def)
    then show ?thesis unfolding l4 by (rule length_centre_pad_fits)
  qed
  have scores: "int (length (lines ! 5)) = w"
    if "\<forall>((a, s), m) \<in> set (zip (ability sb) ms). fits (score_text s m) aw"
  proof -
    have "int (length (concat (map (\<lambda>((a, s), m). centre_pad (score_text s m) aw)
                                 (zip (ability sb) ms)))) = int n * aw"
      using length_concat_padded [of "zip (ability sb) ms" "\<lambda>x. score_text (snd (fst x)) (snd x)" aw]
        that lz
      by (simp add: split_def)
    with le have "fits (concat (map (\<lambda>((a, s), m). centre_pad (score_text s m) aw)
                                 (zip (ability sb) ms))) w"
      by (simp add: fits_def)
    then show ?thesis unfolding l5 by (rule length_centre_pad_fits)
  qed
  have rule: "int (length (summary_info sb v q ! 1)) = v" if "0 \<le> v"
    using that by (simp add: summary_info_def length_str_times)
  have header: "int (length (summary_info sb v q ! 0)) = v" if "fits (header_text sb q) v"
    using that by (simp add: summary_info_def length_centre_pad_fits)
  show ?thesis
    using w l3 l6 sep st ac stl acl ms names scores rule header
    unfolding aw_def n_def by auto
qed

theorem padded_lines_have_line_width_witness:
  "battle_info 2 goblin 80 = Inr goblin_lines_80 \<and>
   int (length (goblin_lines_80 ! 3)) = 80 \<and> int (length (goblin_lines_80 ! 6)) = 80 \<and>
   centre_pad ''Special traits'' 80 \<in> set goblin_lines_80 \<and>
   centre_pad ''Actions'' 80 \<in> set goblin_lines_80 \<and>
   (0::int) \<le> 80 \<and> int (length (summary_info goblin 80 None ! 1)) = 80 \<and>
   fits (header_text goblin None) 80 \<and> int (length (summary_info goblin 80 None ! 0)) = 80"
proof -
  have h: "(0::int) \<le> 80" by simp
  have f: "fits (header_text goblin None) 80" by code_simp
  note t = padded_lines_have_line_width [OF goblin_renders, of 80 None]
  from t h f show ?thesis using goblin_renders by blast
qed

text \<open>
  The claim as stated fails on the first line of \<^verbatim>\<open>battle_info\<close> and on the last line
  of \<^verbatim>\<open>summary_info\<close>: at width 80 the AC line of the goblin has 5 characters and its
  size, type and alignment line has 28.
\<close>

theorem width_invariant_counterexample:
  "(56::int) \<le> 80 \<and>
   battle_info 2 goblin 80 = Inr goblin_lines_80 \<and>
   goblin_lines_80 ! 0 = ''AC 15'' \<and> length (goblin_lines_80 ! 0) = 5 \<and>
   summary_info goblin 80 None ! 2 = ''Small humanoid, neutral evil'' \<and>
   length (summary_info goblin 80 None ! 2) = 28"
  by code_simp

subsection \<open>Missing and empty optional fields\<close>

lemma ability_rows_cong:
  assumes "ability sb' = ability sb"
  shows "ability_rows sb' w = ability_rows sb w"
  unfolding ability_rows_def assms by (rule refl)


lemma battle_info_cong:
  assumes "ability sb' = ability sb" and "melee_attacks sb' = melee_attacks sb"
    and "ranged_attacks sb' = ranged_attacks sb"
    and "\<And>nr sr ms rs. sections_in_order i sb' w nr sr ms rs = sections_in_order i sb w nr sr ms rs"
  shows "battle_info i sb' w = battle_info i sb w"
proof (cases "w < 56")
  case True
  then show ?thesis by (simp add: battle_info_narrow)
next
  case False
  then have w: "56 \<le> w" by simp
  show ?thesis
    unfolding battle_info_layout [OF w] assms(2,3) ability_rows_cong [OF assms(1)] assms(4)
    by simp
qed



text \<open>
  Claim C9. The optional fields are tested by their truth value, so an empty collection
  is rendered as an absent one: with \<^verbatim>\<open>saving_throws = {}\<close>, with \<^verbatim>\<open>skills = {}\<close> and
  with \<^verbatim>\<open>languages = []\<close> the result of \<^verbatim>\<open>battle_info\<close> is the result for
  \<^verbatim>\<open>None\<close> in that field. The Saving throws and Skills sections of an empty dict have
  no line, and in the lines returned for an empty or absent list of languages the
  Languages section is the line \<open>Languages: none\<close>.
\<close>

theorem empty_collection_rendered_as_absent:
  "battle_info i (sb\<lparr>saving_throws := Some []\<rparr>) w = battle_info i (sb\<lparr>saving_throws := None\<rparr>) w \<and>
   battle_info i (sb\<lparr>skills := Some []\<rparr>) w = battle_info i (sb\<lparr>skills := None\<rparr>) w \<and>
   battle_info i (sb\<lparr>languages := Some []\<rparr>) w = battle_info i (sb\<lparr>languages := None\<rparr>) w \<and>
   dict_lines i ''Saving throws'' (Some []) w = [] \<and>
   dict_lines i ''Skills'' (Some []) w = [] \<and>
   (battle_info i sb w = Inr lines \<and> (languages sb = Some [] \<or> languages sb = None) \<longrightarrow>
      languages_lines i (languages sb) w = [''Languages: none''] \<and>
      ''Languages: none'' \<in> set lines)"
proof (intro conjI impI)
  show "battle_info i (sb\<lparr>saving_throws := Some []\<rparr>) w = battle_info i (sb\<lparr>saving_throws := None\<rparr>) w"
    by (rule battle_info_cong) (simp_all add: sections_in_order_def dict_lines_def when_truthy_def)
  show "battle_info i (sb\<lparr>skills := Some []\<rparr>) w = battle_info i (sb\<lparr>skills := None\<rparr>) w"
    by (rule battle_info_cong) (simp_all add: sections_in_order_def dict_lines_def when_truthy_def)
  show "battle_info i (sb\<lparr>languages := Some []\<rparr>) w = battle_info i (sb\<lparr>languages := None\<rparr>) w"
    by (rule battle_info_cong)
      (simp_all add: sections_in_order_def languages_lines_def when_truthy_def)
  show "dict_lines i ''Saving throws'' (Some []) w = []"
    by (simp add: dict_lines_def when_truthy_def)
  show "dict_lines i ''Skills'' (Some []) w = []"
    by (simp add: dict_lines_def when_truthy_def)
next
  assume h: "battle_info i sb w = Inr lines \<and> (languages sb = Some [] \<or> languages sb = None)"
  from battle_info_Inr [of i sb w lines] h obtain nr sr ms rs
    where w: "56 \<le> w" and lines: "lines = sections_in_order i sb w nr sr ms rs" by blast
  have sub: "set (languages_lines i (languages sb) w) \<subseteq> set lines"
    by (auto simp: lines sections_in_order_def)
  from h have "languages_lines i (languages sb) w = format_list i ''Languages'' [''none''] w"
    by (auto simp: languages_lines_def when_truthy_def)
  with w have l: "languages_lines i (languages sb) w = [''Languages: none'']"
    using languages_lines_none [of w i] by simp
  with sub show "languages_lines i (languages sb) w = [''Languages: none'']"
    and "''Languages: none'' \<in> set lines" by simp_all
qed

theorem empty_collection_rendered_as_absent_witness:
  "battle_info 2 goblin 80 = Inr goblin_lines_80 \<and> languages goblin = None \<and>
   languages_lines 2 (languages goblin) 80 = [''Languages: none''] \<and>
   ''Languages: none'' \<in> set goblin_lines_80 \<and>
   battle_info 2 (goblin\<lparr>languages := Some []\<rparr>) 80 = battle_info 2 (goblin\<lparr>languages := None\<rparr>) 80"
proof -
  have a: "languages goblin = None" by code_simp
  note t = empty_collection_rendered_as_absent [of 2 goblin 80 goblin_lines_80]
  from t a goblin_renders show ?thesis by blast
qed

end
